theory Spec2Isabelle
  imports Main "HOL-Library.Word" "HOL-Library.Sublist"
begin

section \<open>Library primitives the crawler calls\<close>

text \<open>
  Go strings are byte sequences, and so is \<^typ>\<open>string\<close>. The functions of this section
  stand for the calls into Go's \<^verbatim>\<open>strings\<close> and \<^verbatim>\<open>regexp\<close> packages that
  \<^verbatim>\<open>crawler.go\<close> makes, each restricted to the arguments the crawler passes.
\<close>

text \<open>\<^verbatim>\<open>strings.Trim(s, cutset)\<close>: drops the leading and the trailing bytes that occur in
  the cutset.\<close>

definition strings_Trim :: "string \<Rightarrow> string \<Rightarrow> string" where
  "strings_Trim s cutset =
     rev (dropWhile (\<lambda>c. c \<in> set cutset) (rev (dropWhile (\<lambda>c. c \<in> set cutset) s)))"

text \<open>\<^verbatim>\<open>strings.Split(s, sep)\<close> for a separator of one byte (the crawler only splits on
  a single space): one piece more than there are separators, so the empty string gives
  one empty piece.\<close>

fun strings_Split :: "string \<Rightarrow> char \<Rightarrow> string list" where
  "strings_Split [] sep = [[]]"
| "strings_Split (c # cs) sep =
     (if c = sep then [] # strings_Split cs sep
      else (case strings_Split cs sep of
              [] \<Rightarrow> [[c]]
            | w # ws \<Rightarrow> (c # w) # ws))"

text \<open>\<^verbatim>\<open>strings.Join(elems, sep)\<close>.\<close>

fun strings_Join :: "string list \<Rightarrow> string \<Rightarrow> string" where
  "strings_Join [] sep = []"
| "strings_Join [x] sep = x"
| "strings_Join (x # y # ys) sep = x @ sep @ strings_Join (y # ys) sep"

text \<open>\<^verbatim>\<open>strings.Contains(s, substr)\<close>.\<close>

fun strings_Contains :: "string \<Rightarrow> string \<Rightarrow> bool" where
  "strings_Contains [] substr = (substr = [])"
| "strings_Contains (c # cs) substr =
     (take (length substr) (c # cs) = substr \<or> strings_Contains cs substr)"

text \<open>The class \<^verbatim>\<open>\s\<close> of Go's regular expressions: tab, line feed, form feed,
  carriage return and space.\<close>

definition isSpace :: "char \<Rightarrow> bool" where
  "isSpace c =
     (c = CHR 0x09 \<or> c = CHR 0x0A \<or> c = CHR 0x0C \<or> c = CHR 0x0D \<or> c = CHR 0x20)"

text \<open>The pattern cleanSpaceRgx of \<^verbatim>\<open>removeSpaces\<close>, one whitespace byte and then one or more,
  with \<^verbatim>\<open>ReplaceAllString(s, " ")\<close>: every maximal run of
  two or more whitespace bytes becomes one space; a whitespace byte that stands alone is
  kept as it is.\<close>

function cleanSpaceRgx_ReplaceAllString :: "string \<Rightarrow> string" where
  "cleanSpaceRgx_ReplaceAllString [] = []"
| "cleanSpaceRgx_ReplaceAllString [c] = [c]"
| "cleanSpaceRgx_ReplaceAllString (a # b # cs) =
     (if isSpace a \<and> isSpace b
      then CHR '' '' # cleanSpaceRgx_ReplaceAllString (dropWhile isSpace cs)
      else a # cleanSpaceRgx_ReplaceAllString (b # cs))"
  by pat_completeness auto
termination
  by (relation "measure length") (auto simp: less_Suc_eq_le le_SucI length_dropWhile_le)

section \<open>The document tree and goquery's view of it\<close>

text \<open>
  A parsed document is a tree of element, text and comment nodes; an element has its
  tag name, its attributes in source order and its children.
\<close>

datatype node =
    Element string "(string \<times> string) list" "node list"
  | TextNode string
  | CommentNode string

text \<open>goquery's \<^verbatim>\<open>Text()\<close> of a node: the text nodes below it, concatenated in
  document order.\<close>

fun getNodeText :: "node \<Rightarrow> string"
  and getNodeTexts :: "node list \<Rightarrow> string" where
  "getNodeText (TextNode s) = s"
| "getNodeText (CommentNode s) = []"
| "getNodeText (Element t as cs) = getNodeTexts cs"
| "getNodeTexts [] = []"
| "getNodeTexts (c # cs) = getNodeText c @ getNodeTexts cs"

text \<open>goquery's node name: the tag of an element, a fixed name for the other kinds.\<close>

fun nodeName :: "node \<Rightarrow> string" where
  "nodeName (Element t as cs) = t"
| "nodeName (TextNode s) = ''#text''"
| "nodeName (CommentNode s) = ''#comment''"

fun nodeAttr :: "node \<Rightarrow> string \<Rightarrow> string option" where
  "nodeAttr (Element t as cs) name = map_of as name"
| "nodeAttr (TextNode s) name = None"
| "nodeAttr (CommentNode s) name = None"

text \<open>
  The path builder receives a selection of one element and climbs with
  \<^verbatim>\<open>Parent()\<close>. Such a selection is the element followed by its element ancestors,
  nearest first; the empty list is the empty selection, which is what \<^verbatim>\<open>Parent()\<close>
  returns at the root element.
\<close>

type_synonym selection = "node list"

definition sel_Length :: "selection \<Rightarrow> nat" where
  "sel_Length sel = (if sel = [] then 0 else 1)"

definition sel_Parent :: "selection \<Rightarrow> selection" where
  "sel_Parent sel = tl sel"

definition sel_Attr :: "selection \<Rightarrow> string \<Rightarrow> string option" where
  "sel_Attr sel name = (case sel of [] \<Rightarrow> None | n # ancestors \<Rightarrow> nodeAttr n name)"

definition sel_Text :: "selection \<Rightarrow> string" where
  "sel_Text sel = (case sel of [] \<Rightarrow> [] | n # ancestors \<Rightarrow> getNodeText n)"

definition NodeName :: "selection \<Rightarrow> string" where
  "NodeName sel = (case sel of [] \<Rightarrow> [] | n # ancestors \<Rightarrow> nodeName n)"

section \<open>Word counting\<close>

definition removeSpaces :: "string \<Rightarrow> string" where
  "removeSpaces text = cleanSpaceRgx_ReplaceAllString (strings_Trim text '' '')"

definition extractWords :: "selection \<Rightarrow> string list" where
  "extractWords selection = (let text = removeSpaces (sel_Text selection)
                             in strings_Split text (CHR '' ''))"

definition extractNumWords :: "selection \<Rightarrow> int" where
  "extractNumWords selection = int (length (extractWords selection))"

section \<open>The path builder\<close>

record ClassesIdSet =
  ParentPath :: string
  TagName :: string
  Id' :: string
  Classes :: "string list"
  WordCount :: int

definition extractClasses :: "selection \<Rightarrow> string list" where
  "extractClasses selection =
     (case sel_Attr selection ''class'' of
        Some val \<Rightarrow> strings_Split val (CHR '' '')
      | None \<Rightarrow> [])"

text \<open>The node's own fragment, the inner \<^verbatim>\<open>strings.Join(parts, "")\<close> of
  \<^verbatim>\<open>ToPath\<close>: the tag, then \<^verbatim>\<open>#id\<close> for a non-empty id, then the classes, each
  after a dot.\<close>

definition fragment :: "ClassesIdSet \<Rightarrow> string" where
  "fragment cs =
     (let parts = [TagName cs];
          parts = (if length (Id' cs) > 0 then parts @ [''#'' @ Id' cs] else parts);
          parts = (if length (Classes cs) > 0
                   then parts @ [''.'' @ strings_Join (Classes cs) ''.''] else parts)
      in strings_Join parts [])"

definition ToPath :: "ClassesIdSet \<Rightarrow> string" where
  "ToPath cs = strings_Trim (strings_Join [ParentPath cs, fragment cs] '' '') '' ''"

function buildClassesIdSet :: "selection \<Rightarrow> ClassesIdSet" where
  "buildClassesIdSet selection =
     (let id = (case sel_Attr selection ''id'' of Some val \<Rightarrow> val | None \<Rightarrow> '''');
          classes = extractClasses selection;
          wordCount = extractNumWords selection;
          tagName = NodeName selection;
          parent = sel_Parent selection;
          parentPath =
            (if sel_Length parent > 0
             then (let parentSet = buildClassesIdSet parent;
                       parentPath = (if TagName parentSet \<noteq> ''body'' \<and> TagName parentSet \<noteq> ''html''
                                     then ToPath parentSet else '''')
                   in if \<not> strings_Contains parentPath ''.'' \<and> \<not> strings_Contains parentPath ''#''
                      then (let parent = sel_Parent parent
                            in if sel_Length parent > 0
                               then (let parentSet = buildClassesIdSet parent
                                     in if TagName parentSet \<noteq> ''body'' \<and> TagName parentSet \<noteq> ''html''
                                        then ToPath parentSet else parentPath)
                               else parentPath)
                      else parentPath)
             else '''')
      in \<lparr>ParentPath = parentPath, TagName = tagName, Id' = id, Classes = classes,
          WordCount = wordCount\<rparr>)"
  by pat_completeness auto
termination
proof (relation "measure length")
  show "wf (measure length)" by simp
next
  fix selection :: selection and parent :: selection
  assume "parent = sel_Parent selection" and "0 < sel_Length parent"
  then show "(parent, selection) \<in> measure length"
    by (cases selection) (auto simp: sel_Parent_def sel_Length_def)
next
  fix selection :: selection and parent parent' :: selection
  assume "parent = sel_Parent selection" and "parent' = sel_Parent parent"
    and "0 < sel_Length parent'"
  then show "(parent', selection) \<in> measure length"
    by (cases selection; cases parent) (auto simp: sel_Parent_def sel_Length_def)
qed

declare buildClassesIdSet.simps [simp del]

section \<open>Links, articles and pages\<close>

text \<open>
  A Go slice is \<^verbatim>\<open>nil\<close> until something is appended to it, and the JSON encoder
  writes \<^verbatim>\<open>null\<close> for a nil slice but \<^verbatim>\<open>[]\<close> for an empty one, so the two are
  kept apart.
\<close>

datatype 'a slice = NilSlice | Slice "'a list"

fun elems :: "'a slice \<Rightarrow> 'a list" where
  "elems NilSlice = []"
| "elems (Slice xs) = xs"

definition append_slice :: "'a slice \<Rightarrow> 'a \<Rightarrow> 'a slice" where
  "append_slice s x = Slice (elems s @ [x])"

record LinkItem =
  link_Title :: string
  link_Uri :: string

record Article =
  article_Title :: string
  article_Uri :: string
  article_Content :: string
  article_Links :: "LinkItem slice"

record Page =
  Uri :: string
  Exists :: bool
  Cached :: bool
  Title :: string
  Articles :: "Article slice"
  Links :: "LinkItem slice"

definition setCached :: "Page \<Rightarrow> Page" where
  "setCached p = p\<lparr>Cached := True\<rparr>"

fun uriIsIn :: "LinkItem list \<Rightarrow> string \<Rightarrow> bool" where
  "uriIsIn [] str = False"
| "uriIsIn (l # ls) str = (if link_Uri l = str then True else uriIsIn ls str)"

definition uriIsInLinkItems :: "LinkItem slice \<Rightarrow> string \<Rightarrow> bool" where
  "uriIsInLinkItems links str = uriIsIn (elems links) str"

definition makeArticle :: "string \<Rightarrow> string \<Rightarrow> string \<Rightarrow> LinkItem slice \<Rightarrow> Article" where
  "makeArticle title uri content links =
     \<lparr>article_Title = title, article_Uri = uri, article_Content = content,
      article_Links = links\<rparr>"

definition makePage ::
  "string \<Rightarrow> string \<Rightarrow> bool \<Rightarrow> Article slice \<Rightarrow> LinkItem slice \<Rightarrow> Page" where
  "makePage title uri exists articles links =
     \<lparr>Uri = uri, Exists = exists, Cached = False, Title = title, Articles = articles,
      Links = links\<rparr>"

definition emptyPage :: Page where
  "emptyPage = \<lparr>Uri = [], Exists = False, Cached = False, Title = [],
                 Articles = NilSlice, Links = NilSlice\<rparr>"

text \<open>The zero value of \<^verbatim>\<open>Article\<close>, which fills the fixed output array of
  \<^verbatim>\<open>readBlogArticles\<close> before the loop runs.\<close>

definition zeroArticle :: Article where
  "zeroArticle = \<lparr>article_Title = [], article_Uri = [], article_Content = [],
                   article_Links = NilSlice\<rparr>"

section \<open>The browser and the libraries behind it\<close>

text \<open>
  goquery's \<^verbatim>\<open>Find\<close> with a list of tag names: the elements below a node whose tag
  is in the list, in document order (the node itself is never among them).
\<close>

fun matchAll :: "string list \<Rightarrow> node \<Rightarrow> node list"
  and matchAlls :: "string list \<Rightarrow> node list \<Rightarrow> node list" where
  "matchAll tags (Element t as cs) =
     (if t \<in> set tags then [Element t as cs] else []) @ matchAlls tags cs"
| "matchAll tags (TextNode s) = []"
| "matchAll tags (CommentNode s) = []"
| "matchAlls tags [] = []"
| "matchAlls tags (c # cs) = matchAll tags c @ matchAlls tags cs"

fun node_Find :: "node \<Rightarrow> string list \<Rightarrow> node list" where
  "node_Find (Element t as cs) tags = matchAlls tags cs"
| "node_Find (TextNode s) tags = []"
| "node_Find (CommentNode s) tags = []"

text \<open>
  \<^verbatim>\<open>articles.Find("img,svg,embed,iframe,object,style,script").Remove()\<close> detaches every
  such element below an article from its parent. \<open>removeBelow\<close> is what is left of one
  node, \<open>removeInArticles\<close> what is left of the document.
\<close>

fun removeBelow :: "string list \<Rightarrow> node \<Rightarrow> node"
  and removeBelows :: "string list \<Rightarrow> node list \<Rightarrow> node list" where
  "removeBelow tags (Element t as cs) = Element t as (removeBelows tags cs)"
| "removeBelow tags (TextNode s) = TextNode s"
| "removeBelow tags (CommentNode s) = CommentNode s"
| "removeBelows tags [] = []"
| "removeBelows tags (c # cs) =
     (if nodeName c \<in> set tags then removeBelows tags cs
      else removeBelow tags c # removeBelows tags cs)"

fun removeInArticle :: "string list \<Rightarrow> node \<Rightarrow> node"
  and removeInArticles :: "string list \<Rightarrow> node list \<Rightarrow> node list" where
  "removeInArticle tags (Element t as cs) =
     (if t = ''article'' then removeBelow tags (Element t as cs)
      else Element t as (removeInArticles tags cs))"
| "removeInArticle tags (TextNode s) = TextNode s"
| "removeInArticle tags (CommentNode s) = CommentNode s"
| "removeInArticles tags [] = []"
| "removeInArticles tags (c # cs) = removeInArticle tags c # removeInArticles tags cs"

text \<open>The browser after \<^verbatim>\<open>Open\<close> succeeded: the address it opened and the top-level
  nodes of the document it holds.\<close>

record Browser =
  bow_uri :: string
  bow_dom :: "node list"

definition bow_Find :: "Browser \<Rightarrow> string list \<Rightarrow> node list" where
  "bow_Find bow tags = matchAlls tags (bow_dom bow)"

text \<open>The fields of \<^verbatim>\<open>net/url.URL\<close> a link can carry, and surf's link: its resolved
  address and its text.\<close>

record URL =
  url_Scheme :: string
  url_Host :: string
  url_Path :: string
  url_RawQuery :: string
  url_Fragment :: string

record Link =
  link_Url :: URL
  link_Text :: string

text \<open>
  Four library functions are parameters of the model, since the crawler does not depend
  on how they compute:
  \<^item> \<^verbatim>\<open>json.Unmarshal(bytes, &page)\<close> gives the page as the decoder left it and
    whether it returned an error;
  \<^item> goquery's \<^verbatim>\<open>Html()\<close> gives the inner markup of a node, or fails;
  \<^item> surf's \<^verbatim>\<open>Links()\<close> and \<^verbatim>\<open>Title()\<close> read the document the browser holds at
    the moment of the call.
\<close>

record lib =
  json_Unmarshal :: "string \<Rightarrow> Page \<Rightarrow> Page \<times> bool"
  sel_Html :: "node \<Rightarrow> string option"
  bow_Links :: "Browser \<Rightarrow> Link list"
  bow_Title :: "Browser \<Rightarrow> string"

section \<open>Article extraction\<close>

text \<open>
  The pattern p1 of \<^verbatim>\<open>readBlogArticles\<close>, a comment opener, then as few bytes as
  possible that are no closing angle bracket, then the comment closer. A match
  therefore needs the first closing angle bracket after the opener to come right after
  two dashes of its own. \<open>commentMatch\<close> gives what follows a match at the start of the
  string; \<open>p1_ReplaceAllString\<close> deletes every match, leftmost first.
\<close>

definition commentMatch :: "string \<Rightarrow> string option" where
  "commentMatch s =
     (if take 4 s = [CHR 0x3C, CHR ''!'', CHR ''-'', CHR ''-'']
      then (let body = drop 4 s;
                run = takeWhile (\<lambda>c. c \<noteq> CHR 0x3E) body;
                rest = dropWhile (\<lambda>c. c \<noteq> CHR 0x3E) body
            in if rest \<noteq> [] \<and> 2 \<le> length run \<and> drop (length run - 2) run = ''--''
               then Some (tl rest) else None)
      else None)"

function p1_ReplaceAllString :: "string \<Rightarrow> string" where
  "p1_ReplaceAllString [] = []"
| "p1_ReplaceAllString (c # cs) =
     (case commentMatch (c # cs) of
        Some rest \<Rightarrow> p1_ReplaceAllString rest
      | None \<Rightarrow> c # p1_ReplaceAllString cs)"
  by pat_completeness auto
termination
proof (relation "measure length")
  show "wf (measure length)" by simp
next
  fix c :: char and cs rest :: string
  assume m: "commentMatch (c # cs) = Some rest"
  let ?body = "drop 4 (c # cs)"
  let ?tail = "dropWhile (\<lambda>c. c \<noteq> CHR 0x3E) ?body"
  from m have t: "?tail \<noteq> []" and r: "rest = tl ?tail"
    by (auto simp: commentMatch_def Let_def split: if_splits)
  have "length ?tail \<le> length ?body" by (rule length_dropWhile_le)
  moreover from t have "length (tl ?tail) < length ?tail" by (cases ?tail) auto
  ultimately show "(rest, c # cs) \<in> measure length" using r by simp
next
  fix c :: char and cs :: string
  show "(cs, c # cs) \<in> measure length" by simp
qed

definition maxNum :: nat where
  "maxNum = 100"

text \<open>Go's run-time panic for a slice expression whose upper bound exceeds the capacity:
  the bound and the capacity.\<close>

datatype panic = SliceBoundsOutOfRange nat nat

text \<open>The inner loop over the anchors of one article: those with an href, the first of
  each href only.\<close>

definition collectLinks :: "node list \<Rightarrow> LinkItem slice" where
  "collectLinks linkEls =
     foldl (\<lambda>links linkEl.
              case nodeAttr linkEl ''href'' of
                Some val \<Rightarrow>
                  (let lk = \<lparr>link_Title = getNodeText linkEl, link_Uri = val\<rparr>
                   in if \<not> uriIsInLinkItems links val then append_slice links lk else links)
              | None \<Rightarrow> links)
           NilSlice linkEls"

text \<open>One round of the loop of \<^verbatim>\<open>readBlogArticles\<close>: \<open>output\<close> is the fixed array
  of \<open>maxNum\<close> articles, written at index \<open>i\<close> only when the candidate has a heading
  with an anchor in it.\<close>

definition articleLoopBody :: "lib \<Rightarrow> node list \<Rightarrow> Article list \<Rightarrow> nat \<Rightarrow> Article list" where
  "articleLoopBody L articles output i =
     (if i < maxNum
      then (case sel_Html L (articles ! i) of
              Some itemHtml \<Rightarrow>
                (let content = strings_Trim (p1_ReplaceAllString itemHtml)
                                 [CHR 0x0A, CHR 0x09, CHR '' ''];
                     titleEls = node_Find (articles ! i) [''h1'', ''h2'', ''h3'']
                 in if length titleEls > 0
                    then (let titleElement = hd titleEls;
                              title = getNodeText titleElement;
                              linkEl = node_Find titleElement [''a'']
                          in if length linkEl > 0
                             then (let uri = (case nodeAttr (hd linkEl) ''href'' of
                                                Some val \<Rightarrow> val | None \<Rightarrow> []);
                                       linkEls = node_Find (articles ! i) [''a''];
                                       links = collectLinks linkEls
                                   in output[i := makeArticle title uri content links])
                             else output)
                    else output)
            | None \<Rightarrow> output)
      else output)"

definition noiseTags :: "string list" where
  "noiseTags = [''img'', ''svg'', ''embed'', ''iframe'', ''object'', ''style'', ''script'']"

text \<open>
  \<^verbatim>\<open>readBlogArticles\<close> returns the articles, or panics at its last line, and leaves the
  browser's document without the noise elements it removed.
\<close>

definition readBlogArticles :: "lib \<Rightarrow> Browser \<Rightarrow> (panic + Article slice) \<times> Browser" where
  "readBlogArticles L bow =
     (let articles = bow_Find bow [''article''];
          bow' = bow\<lparr>bow_dom := removeInArticles noiseTags (bow_dom bow)\<rparr>;
          articles = map (removeBelow noiseTags) articles;
          numArticles = length articles;
          output = foldl (articleLoopBody L articles) (replicate maxNum zeroArticle)
                     [0..<numArticles]
      in (if numArticles \<le> maxNum then Inr (Slice (take numArticles output))
          else Inl (SliceBoundsOutOfRange numArticles maxNum),
          bow'))"

section \<open>The JSON encoder\<close>

text \<open>
  \<^verbatim>\<open>json.MarshalIndent(data, prefix, indent)\<close> for the three struct types of the
  crawler, with the field names of their tags and in the order of their declaration.
  Every member of an object or array starts a line of its own, which begins with the
  prefix and one copy of the indent for each level of nesting; a colon is followed by a
  space; an empty array stays \<^verbatim>\<open>[]\<close> and a nil slice is \<^verbatim>\<open>null\<close>. In a string the
  encoder escapes the quote, the backslash, the control bytes and the three bytes that
  are unsafe in markup; bytes above 0x7f are copied, which is what it does with
  well-formed UTF-8 other than U+2028 and U+2029.
\<close>

definition hexDigit :: "nat \<Rightarrow> char" where
  "hexDigit n = ''0123456789abcdef'' ! (n mod 16)"

definition json_escape :: "char \<Rightarrow> string" where
  "json_escape c =
     (if c = CHR 0x22 then [CHR 0x5C, CHR 0x22]
      else if c = CHR 0x5C then [CHR 0x5C, CHR 0x5C]
      else if c = CHR 0x0A then [CHR 0x5C, CHR ''n'']
      else if c = CHR 0x0D then [CHR 0x5C, CHR ''r'']
      else if c = CHR 0x09 then [CHR 0x5C, CHR ''t'']
      else if (of_char c :: nat) < 32 \<or> c = CHR 0x3C \<or> c = CHR 0x3E \<or> c = CHR 0x26
      then [CHR 0x5C, CHR ''u'', CHR ''0'', CHR ''0'',
            hexDigit (of_char c div 16), hexDigit (of_char c mod 16)]
      else [c])"

definition json_string :: "string \<Rightarrow> string" where
  "json_string s = CHR 0x22 # concat (map json_escape s) @ [CHR 0x22]"

definition json_bool :: "bool \<Rightarrow> string" where
  "json_bool b = (if b then ''true'' else ''false'')"

definition json_newline :: "string \<Rightarrow> string \<Rightarrow> nat \<Rightarrow> string" where
  "json_newline pfx indent depth = CHR 0x0A # pfx @ concat (replicate depth indent)"

definition json_block ::
  "string \<Rightarrow> string \<Rightarrow> nat \<Rightarrow> string \<Rightarrow> string \<Rightarrow> string list \<Rightarrow> string" where
  "json_block pfx indent depth opener closer members =
     (if members = [] then opener @ closer
      else opener @ json_newline pfx indent (depth + 1)
           @ strings_Join members (CHR '','' # json_newline pfx indent (depth + 1))
           @ json_newline pfx indent depth @ closer)"

definition json_field :: "string \<Rightarrow> string \<Rightarrow> string" where
  "json_field name encoded = json_string name @ '': '' @ encoded"

definition json_slice ::
  "(nat \<Rightarrow> 'a \<Rightarrow> string) \<Rightarrow> string \<Rightarrow> string \<Rightarrow> nat \<Rightarrow> 'a slice \<Rightarrow> string" where
  "json_slice enc pfx indent depth s =
     (case s of
        NilSlice \<Rightarrow> ''null''
      | Slice xs \<Rightarrow> json_block pfx indent depth ''['' '']'' (map (enc (depth + 1)) xs))"

definition json_LinkItem :: "string \<Rightarrow> string \<Rightarrow> nat \<Rightarrow> LinkItem \<Rightarrow> string" where
  "json_LinkItem pfx indent depth l =
     json_block pfx indent depth ''{'' ''}''
       [json_field ''title'' (json_string (link_Title l)),
        json_field ''uri'' (json_string (link_Uri l))]"

definition json_Article :: "string \<Rightarrow> string \<Rightarrow> nat \<Rightarrow> Article \<Rightarrow> string" where
  "json_Article pfx indent depth a =
     json_block pfx indent depth ''{'' ''}''
       [json_field ''title'' (json_string (article_Title a)),
        json_field ''uri'' (json_string (article_Uri a)),
        json_field ''content'' (json_string (article_Content a)),
        json_field ''links''
          (json_slice (json_LinkItem pfx indent) pfx indent (depth + 1) (article_Links a))]"

definition json_Page :: "string \<Rightarrow> string \<Rightarrow> nat \<Rightarrow> Page \<Rightarrow> string" where
  "json_Page pfx indent depth p =
     json_block pfx indent depth ''{'' ''}''
       [json_field ''uri'' (json_string (Uri p)),
        json_field ''exists'' (json_bool (Exists p)),
        json_field ''cached'' (json_bool (Cached p)),
        json_field ''title'' (json_string (Title p)),
        json_field ''articles''
          (json_slice (json_Article pfx indent) pfx indent (depth + 1) (Articles p)),
        json_field ''links''
          (json_slice (json_LinkItem pfx indent) pfx indent (depth + 1) (Links p))]"

text \<open>The encoder cannot fail on a page; the second component is whether it returned an
  error.\<close>

definition json_MarshalIndent :: "Page \<Rightarrow> string \<Rightarrow> string \<Rightarrow> string \<times> bool" where
  "json_MarshalIndent data pfx indent = (json_Page pfx indent 0 data, False)"

section \<open>The store, the network and the cache-aside read path\<close>

text \<open>
  The world outside the process: what the key-value store holds under each key (the
  bytes and the expiration they were set with, in nanoseconds), what the network
  answers for an address (the document, or nothing when \<^verbatim>\<open>Open\<close> fails), and the
  calls made so far, oldest first. The store answers every call: a read finds the key
  or reports it absent, and a write replaces the entry. Expiry is the store's own
  business: an entry stays until it is overwritten.
\<close>

datatype event =
    StoreGet string
  | StoreSet string string "64 word"
  | BrowserOpen string

record world =
  store :: "string \<rightharpoonup> string \<times> 64 word"
  web :: "string \<Rightarrow> node list option"
  trace :: "event list"

datatype store_error = RedisNil

text \<open>\<^verbatim>\<open>time.Duration(minutes) * time.Minute\<close> is a product of 64-bit integers.\<close>

definition setCache :: "world \<Rightarrow> string \<Rightarrow> Page \<Rightarrow> 64 word \<Rightarrow> world \<times> bool" where
  "setCache w key data minutes =
     (let duration = minutes * 60000000000;
          (ret, err) = json_MarshalIndent data [] '' ''
      in (w\<lparr>store := (store w)(key \<mapsto> (ret, duration)),
            trace := trace w @ [StoreSet key ret duration]\<rparr>,
          \<not> err))"

definition getCache :: "lib \<Rightarrow> world \<Rightarrow> string \<Rightarrow> world \<times> Page \<times> store_error option" where
  "getCache L w key =
     (let page = emptyPage;
          w' = w\<lparr>trace := trace w @ [StoreGet key]\<rparr>
      in case store w key of
           Some (val, expiration) \<Rightarrow> (w', fst (json_Unmarshal L val page), None)
         | None \<Rightarrow> (w', page, Some RedisNil))"

definition pageLinks :: "Link list \<Rightarrow> LinkItem slice" where
  "pageLinks linkObjs =
     foldl (\<lambda>links linkRef.
              (let path = url_Path (link_Url linkRef)
               in if length path > 0
                  then (let newLink = \<lparr>link_Title = link_Text linkRef, link_Uri = path\<rparr>
                        in if \<not> uriIsInLinkItems links path then append_slice links newLink
                           else links)
                  else links))
           NilSlice linkObjs"

definition readLiveBlogPage :: "lib \<Rightarrow> world \<Rightarrow> string \<Rightarrow> world \<times> (panic + Page)" where
  "readLiveBlogPage L w uri =
     (let w' = w\<lparr>trace := trace w @ [BrowserOpen uri]\<rparr>
      in case web w uri of
           None \<Rightarrow> (w', Inr (makePage [] uri False NilSlice NilSlice))
         | Some doc \<Rightarrow>
             (let bow = \<lparr>bow_uri = uri, bow_dom = doc\<rparr>;
                  (result, bow) = readBlogArticles L bow
              in case result of
                   Inl p \<Rightarrow> (w', Inl p)
                 | Inr articles \<Rightarrow>
                     (let linkObjs = bow_Links L bow;
                          title = bow_Title L bow;
                          links = pageLinks linkObjs
                      in (w', Inr (makePage title uri True articles links)))))"

definition readBlogPage ::
  "lib \<Rightarrow> world \<Rightarrow> string \<Rightarrow> string \<Rightarrow> bool \<Rightarrow> world \<times> (panic + Page \<times> bool)" where
  "readBlogPage L w path scheme cached =
     (let uri = scheme @ ''://'' @ path;
          cacheKey = ''page:'' @ path;
          (w, result, errVal) = getCache L w cacheKey
      in if errVal = None \<and> cached
         then (w, Inr (setCached result, True))
         else (let (w, live) = readLiveBlogPage L w uri
               in case live of
                    Inl p \<Rightarrow> (w, Inl p)
                  | Inr data \<Rightarrow>
                      (let (w, ok) = setCache w cacheKey data 1440
                       in (w, Inr (data, False)))))"

section \<open>Notions used to state the properties\<close>

text \<open>A root wrapper is a node named \<^verbatim>\<open>body\<close> or \<^verbatim>\<open>html\<close>.\<close>

definition rootWrapper :: "node \<Rightarrow> bool" where
  "rootWrapper n = (nodeName n = ''body'' \<or> nodeName n = ''html'')"

text \<open>The fragment a node contributes for itself, whatever its ancestors are.\<close>

definition ownFragment :: "node \<Rightarrow> string" where
  "ownFragment n = fragment (buildClassesIdSet [n])"

text \<open>A marker is a dot or a hash sign somewhere in a path.\<close>

definition hasMarker :: "string \<Rightarrow> bool" where
  "hasMarker path = (strings_Contains path ''.'' \<or> strings_Contains path ''#'')"

text \<open>The path made of a list of fragments, outermost first, put together the way
  \<^verbatim>\<open>ToPath\<close> puts a parent path and a fragment together.\<close>

definition breadcrumb :: "string list \<Rightarrow> string" where
  "breadcrumb frags =
     foldl (\<lambda>parentPath frag. strings_Trim (strings_Join [parentPath, frag] '' '') '' '')
       [] frags"

text \<open>What one round of the loop of \<^verbatim>\<open>readBlogArticles\<close> writes for a candidate, if
  it writes at all.\<close>

definition candidateArticle :: "lib \<Rightarrow> node \<Rightarrow> Article option" where
  "candidateArticle L c =
     (case sel_Html L c of
        None \<Rightarrow> None
      | Some itemHtml \<Rightarrow>
          (case node_Find c [''h1'', ''h2'', ''h3''] of
             [] \<Rightarrow> None
           | titleElement # others \<Rightarrow>
               (case node_Find titleElement [''a''] of
                  [] \<Rightarrow> None
                | anchor # anchors \<Rightarrow>
                    Some (makeArticle (getNodeText titleElement)
                            (case nodeAttr anchor ''href'' of Some val \<Rightarrow> val | None \<Rightarrow> [])
                            (strings_Trim (p1_ReplaceAllString itemHtml)
                               [CHR 0x0A, CHR 0x09, CHR '' ''])
                            (collectLinks (node_Find c [''a'']))))))"

text \<open>The path component of a link's address, and the links the browser reports for an
  address once the articles have been read.\<close>

definition linkPath :: "Link \<Rightarrow> string" where
  "linkPath l = url_Path (link_Url l)"

definition reportedLinks :: "lib \<Rightarrow> world \<Rightarrow> string \<Rightarrow> Link list" where
  "reportedLinks L w uri =
     (case web w uri of
        None \<Rightarrow> []
      | Some doc \<Rightarrow> bow_Links L (snd (readBlogArticles L \<lparr>bow_uri = uri, bow_dom = doc\<rparr>)))"

section \<open>Concrete documents and environments\<close>

text \<open>
  The examples below run the model on these inputs. In \<open>exampleLib\<close> the decoder
  rejects every payload and leaves the page as it was (what \<^verbatim>\<open>json.Unmarshal\<close> does
  with bytes that are no JSON), \<^verbatim>\<open>Html()\<close> gives the text of a node, and the browser
  reports two links to one path, one link with an empty path and one more link.
\<close>

definition exampleLinks :: "Link list" where
  "exampleLinks =
     [\<lparr>link_Url = \<lparr>url_Scheme = ''https'', url_Host = ''example.com'', url_Path = ''/a'',
                     url_RawQuery = [], url_Fragment = []\<rparr>, link_Text = ''first''\<rparr>,
      \<lparr>link_Url = \<lparr>url_Scheme = ''http'', url_Host = ''other.org'', url_Path = ''/a'',
                     url_RawQuery = ''x=1'', url_Fragment = []\<rparr>, link_Text = ''second''\<rparr>,
      \<lparr>link_Url = \<lparr>url_Scheme = ''https'', url_Host = ''example.com'', url_Path = [],
                     url_RawQuery = [], url_Fragment = ''top''\<rparr>, link_Text = ''home''\<rparr>,
      \<lparr>link_Url = \<lparr>url_Scheme = ''https'', url_Host = ''example.com'', url_Path = ''/b'',
                     url_RawQuery = [], url_Fragment = []\<rparr>, link_Text = ''third''\<rparr>]"

definition exampleLib :: lib where
  "exampleLib = \<lparr>json_Unmarshal = (\<lambda>bytes page. (page, True)),
                  sel_Html = (\<lambda>n. Some (getNodeText n)),
                  bow_Links = (\<lambda>bow. exampleLinks),
                  bow_Title = (\<lambda>bow. ''Example'')\<rparr>"

text \<open>Three candidates: a heading with a linked title, no heading at all, and a heading
  whose anchor has no href.\<close>

definition linkedArticle :: node where
  "linkedArticle =
     Element ''article'' []
       [Element ''h2'' [] [Element ''a'' [(''href'', ''/p1'')] [TextNode ''T'']],
        Element ''p'' [] [TextNode ''hello world'', Element ''img'' [] []]]"

definition plainArticle :: node where
  "plainArticle = Element ''article'' [] [Element ''p'' [] [TextNode ''no heading'']]"

definition bareAnchorArticle :: node where
  "bareAnchorArticle =
     Element ''article'' [] [Element ''h1'' [] [Element ''a'' [] [TextNode ''X'']]]"

definition exampleBrowser :: Browser where
  "exampleBrowser =
     \<lparr>bow_uri = ''https://example.com'',
      bow_dom = [Element ''html'' []
                  [Element ''body'' [] [linkedArticle, plainArticle, bareAnchorArticle]]]\<rparr>"

definition plainBrowser :: Browser where
  "plainBrowser =
     \<lparr>bow_uri = ''https://example.com'',
      bow_dom = [Element ''html'' [] [Element ''body'' [] [plainArticle]]]\<rparr>"

text \<open>A document with 101 article elements.\<close>

definition crowdedBrowser :: Browser where
  "crowdedBrowser =
     \<lparr>bow_uri = ''https://example.com'',
      bow_dom = [Element ''html'' []
                  [Element ''body'' [] (replicate 101 (Element ''article'' [] []))]]\<rparr>"

text \<open>An empty store and a network that answers nothing; the same with a document
  behind one address; and the same with bytes that are no JSON under one key.\<close>

definition emptyWorld :: world where
  "emptyWorld = \<lparr>store = Map.empty, web = (\<lambda>uri. None), trace = []\<rparr>"

definition liveWorld :: world where
  "liveWorld =
     \<lparr>store = Map.empty,
      web = (\<lambda>uri. if uri = ''https://example.com'' then Some (bow_dom exampleBrowser)
                    else None),
      trace = []\<rparr>"

definition staleWorld :: world where
  "staleWorld =
     \<lparr>store = [''page:example.com'' \<mapsto> (''not json'', 86400000000000)],
      web = (\<lambda>uri. None), trace = []\<rparr>"

text \<open>A span in a plain div in a section with an id, under body and html.\<close>

definition exampleLineage :: selection where
  "exampleLineage =
     [Element ''span'' [] [TextNode ''a   b''],
      Element ''div'' [] [],
      Element ''section'' [(''id'', ''main'')] [],
      Element ''body'' [(''class'', ''home'')] [],
      Element ''html'' [] []]"

text \<open>The page of an address that does not answer, and the page of the document behind
  the address of \<open>liveWorld\<close>.\<close>

definition missingPage :: Page where
  "missingPage = makePage [] ''https://example.com'' False NilSlice NilSlice"

definition examplePage :: Page where
  "examplePage =
     makePage ''Example'' ''https://example.com'' True
       (Slice [makeArticle ''T'' ''/p1'' ''Thello world''
                 (Slice [\<lparr>link_Title = ''T'', link_Uri = ''/p1''\<rparr>]),
               zeroArticle,
               makeArticle ''X'' [] ''X'' NilSlice])
       (Slice [\<lparr>link_Title = ''first'', link_Uri = ''/a''\<rparr>,
               \<lparr>link_Title = ''third'', link_Uri = ''/b''\<rparr>])"

section \<open>Word counting: the three documented values\<close>

text \<open>
  Claim C7. The word count of a selection is the number of pieces that splitting on
  single spaces leaves of its text, once the text is trimmed of spaces and its runs of
  whitespace are collapsed. For every selection whose text is empty the count is 1, for
  text \<^verbatim>\<open>a   b\<close> it is 2, and for \<^verbatim>\<open>a  b  c\<close> with two spaces before and after it
  is 3.
\<close>

theorem wordCount_documented_values:
  "(sel_Text sel = [] \<longrightarrow> extractWords sel = [[]] \<and> extractNumWords sel = 1) \<and>
   (sel_Text sel = ''a   b'' \<longrightarrow>
      extractWords sel = [''a'', ''b''] \<and> extractNumWords sel = 2) \<and>
   (sel_Text sel = ''  a  b  c  '' \<longrightarrow>
      extractWords sel = [''a'', ''b'', ''c''] \<and> extractNumWords sel = 3)"
  by (simp add: extractNumWords_def extractWords_def removeSpaces_def strings_Trim_def
      isSpace_def)

theorem wordCount_documented_values_witness:
  "sel_Text [TextNode []] = [] \<and> extractNumWords [TextNode []] = 1 \<and>
   sel_Text [Element ''p'' [] [TextNode ''a '', Element ''b'' [] [TextNode ''  b'']]] = ''a   b'' \<and>
   extractNumWords [Element ''p'' [] [TextNode ''a '', Element ''b'' [] [TextNode ''  b'']]] = 2 \<and>
   sel_Text [TextNode ''  a  b  c  ''] = ''  a  b  c  '' \<and>
   extractNumWords [TextNode ''  a  b  c  ''] = 3"
  using wordCount_documented_values [of "[TextNode []]"]
    wordCount_documented_values
      [of "[Element ''p'' [] [TextNode ''a '', Element ''b'' [] [TextNode ''  b'']]]"]
    wordCount_documented_values [of "[TextNode ''  a  b  c  '']"]
  by (simp add: sel_Text_def)

section \<open>The path builder: what a call computes\<close>

lemma build_single: "ParentPath (buildClassesIdSet [n]) = []"
  by (subst buildClassesIdSet.simps) (simp add: sel_Parent_def sel_Length_def Let_def)

lemma build_fields:
  "TagName (buildClassesIdSet sel) = NodeName sel"
  "Id' (buildClassesIdSet sel) = (case sel_Attr sel ''id'' of Some val \<Rightarrow> val | None \<Rightarrow> [])"
  "Classes (buildClassesIdSet sel) = extractClasses sel"
  "WordCount (buildClassesIdSet sel) = extractNumWords sel"
  by (subst buildClassesIdSet.simps, simp add: Let_def)+

lemma build_step:
  "ParentPath (buildClassesIdSet (n # p # gs)) =
     (let parentPath = (if rootWrapper p then [] else ToPath (buildClassesIdSet (p # gs)))
      in if \<not> hasMarker parentPath \<and> gs \<noteq> [] \<and> NodeName gs \<noteq> ''body'' \<and> NodeName gs \<noteq> ''html''
         then ToPath (buildClassesIdSet gs) else parentPath)"
  apply (subst buildClassesIdSet.simps)
  apply (simp add: sel_Parent_def sel_Length_def Let_def build_fields NodeName_def
      rootWrapper_def hasMarker_def)
  done

lemma fragment_head: "fragment (buildClassesIdSet (n # ancestors)) = ownFragment n"
  by (simp add: fragment_def ownFragment_def build_fields NodeName_def sel_Attr_def
      extractClasses_def Let_def)

lemma ToPath_build:
  "ToPath (buildClassesIdSet (n # ancestors)) =
     strings_Trim
       (strings_Join [ParentPath (buildClassesIdSet (n # ancestors)), ownFragment n] '' '') '' ''"
  by (simp only: ToPath_def fragment_head)

lemma contains_single: "strings_Contains s [c] \<longleftrightarrow> c \<in> set s"
  by (induction s) auto

lemma dropWhile_keeps: "x \<in> set xs \<Longrightarrow> \<not> P x \<Longrightarrow> x \<in> set (dropWhile P xs)"
  by (induction xs) auto

lemma Trim_keeps: "c \<in> set s \<Longrightarrow> c \<notin> set cutset \<Longrightarrow> c \<in> set (strings_Trim s cutset)"
  by (simp add: strings_Trim_def dropWhile_keeps)

lemma hasMarker_iff: "hasMarker s \<longleftrightarrow> CHR ''.'' \<in> set s \<or> CHR ''#'' \<in> set s"
  by (simp add: hasMarker_def contains_single)

lemma own_marker_in_path:
  "hasMarker (ownFragment p) \<Longrightarrow> hasMarker (ToPath (buildClassesIdSet (p # gs)))"
  by (auto simp: hasMarker_iff ToPath_build intro!: Trim_keeps)

text \<open>
  Claim C5, as the code has it. A call climbs at most once: the parent path of a node
  with no parent is empty, and otherwise it is decided by the parent and the
  grandparent alone. The path taken for the parent is the parent's whole path, its own
  ancestors' fragments included, or the empty string when the parent is a root wrapper.
  The skip rule triggers exactly when that path holds no marker; then the grandparent's
  path becomes the parent path if there is a grandparent and it is no root wrapper, and
  in every other case the path taken for the parent stays. In particular a parent that
  is no root wrapper and has a marker in its own fragment is never skipped; a parent
  without one is skipped only if its ancestors' fragments in its path have none either.
\<close>

theorem skip_rule_reads_whole_parent_path:
  "ParentPath (buildClassesIdSet [n]) = [] \<and>
   ParentPath (buildClassesIdSet (n # p # gs)) =
     (let parentPath = (if rootWrapper p then [] else ToPath (buildClassesIdSet (p # gs)))
      in if \<not> hasMarker parentPath \<and> gs \<noteq> [] \<and> NodeName gs \<noteq> ''body'' \<and> NodeName gs \<noteq> ''html''
         then ToPath (buildClassesIdSet gs) else parentPath) \<and>
   (\<not> rootWrapper p \<and> hasMarker (ownFragment p) \<longrightarrow>
      ParentPath (buildClassesIdSet (n # p # gs)) = ToPath (buildClassesIdSet (p # gs)))"
  using build_single [of n] build_step [of n p gs] own_marker_in_path [of p gs]
  by (simp add: Let_def)

theorem skip_rule_reads_whole_parent_path_witness:
  "ParentPath (buildClassesIdSet exampleLineage) = ''section#main div'' \<and>
   ParentPath (buildClassesIdSet [Element ''span'' [] [], Element ''div'' [] [],
       Element ''section'' [] [], Element ''body'' [] [], Element ''html'' [] []]) = ''section'' \<and>
   \<not> rootWrapper (Element ''div'' [(''class'', ''box'')] []) \<and>
   hasMarker (ownFragment (Element ''div'' [(''class'', ''box'')] [])) \<and>
   ParentPath (buildClassesIdSet [Element ''span'' [] [], Element ''div'' [(''class'', ''box'')] [],
       Element ''body'' [] [], Element ''html'' [] []]) = ''div.box''"
proof -
  have e1: "ToPath (buildClassesIdSet (tl exampleLineage)) = ''section#main div''"
    by code_simp
  have e2: "ToPath (buildClassesIdSet
      [Element ''div'' [] [], Element ''section'' [] [], Element ''body'' [] [],
       Element ''html'' [] []]) = ''section div''"
    by code_simp
  have e3: "ToPath (buildClassesIdSet
      [Element ''section'' [] [], Element ''body'' [] [], Element ''html'' [] []]) = ''section''"
    by code_simp
  have e4: "\<not> rootWrapper (Element ''div'' [(''class'', ''box'')] []) \<and>
      hasMarker (ownFragment (Element ''div'' [(''class'', ''box'')] []))"
    by code_simp
  have e5: "ToPath (buildClassesIdSet
      [Element ''div'' [(''class'', ''box'')] [], Element ''body'' [] [], Element ''html'' [] []])
      = ''div.box''"
    by code_simp
  show ?thesis
    using skip_rule_reads_whole_parent_path
      [of "Element ''span'' [] [TextNode ''a   b'']" "Element ''div'' [] []"
        "[Element ''section'' [(''id'', ''main'')] [],
          Element ''body'' [(''class'', ''home'')] [], Element ''html'' [] []]"]
      skip_rule_reads_whole_parent_path
      [of "Element ''span'' [] []" "Element ''div'' [] []"
        "[Element ''section'' [] [], Element ''body'' [] [], Element ''html'' [] []]"]
      skip_rule_reads_whole_parent_path
      [of "Element ''span'' [] []" "Element ''div'' [(''class'', ''box'')] []"
        "[Element ''body'' [] [], Element ''html'' [] []]"]
      e1 e2 e3 e4 e5
    by (simp add: exampleLineage_def rootWrapper_def hasMarker_def NodeName_def)
qed

theorem skip_rule_own_fragment_counterexample:
  "\<not> rootWrapper (exampleLineage ! 1) \<and>
   \<not> hasMarker (ownFragment (exampleLineage ! 1)) \<and>
   ToPath (buildClassesIdSet (drop 2 exampleLineage)) = ''section#main'' \<and>
   ParentPath (buildClassesIdSet exampleLineage) = ''section#main div''"
  by code_simp

section \<open>The path builder: where the fragments of a path come from\<close>

lemma breadcrumb_snoc:
  "breadcrumb (fs @ [f]) = strings_Trim (strings_Join [breadcrumb fs, f] '' '') '' ''"
  by (simp add: breadcrumb_def)

lemma parentPath_choice:
  "ParentPath (buildClassesIdSet (n # p # g # gs)) = [] \<or>
   (\<not> rootWrapper p \<and>
      ParentPath (buildClassesIdSet (n # p # g # gs)) = ToPath (buildClassesIdSet (p # g # gs))) \<or>
   (\<not> rootWrapper g \<and>
      ParentPath (buildClassesIdSet (n # p # g # gs)) = ToPath (buildClassesIdSet (g # gs)))"
  by (simp add: build_step Let_def rootWrapper_def NodeName_def)

lemma parentPath_crumbs:
  "\<exists>ns. subseq ns (rev ancestors) \<and> (\<forall>m\<in>set ns. \<not> rootWrapper m) \<and>
        ParentPath (buildClassesIdSet (n # ancestors)) = breadcrumb (map ownFragment ns)"
proof (induction ancestors arbitrary: n rule: induct_list012)
  case 1
  show ?case by (rule exI[of _ "[]"]) (simp add: build_single breadcrumb_def)
next
  case (2 p)
  show ?case
  proof (cases "rootWrapper p")
    case True
    then show ?thesis
      by (intro exI[of _ "[]"]) (simp add: build_step breadcrumb_def Let_def)
  next
    case False
    then show ?thesis
      by (intro exI[of _ "[p]"])
        (simp add: build_step build_single ToPath_build breadcrumb_def Let_def)
  qed
next
  case (3 p g gs)
  from 3(1)[of g] obtain ns1 where ns1: "subseq ns1 (rev gs)" "\<forall>m\<in>set ns1. \<not> rootWrapper m"
    "ParentPath (buildClassesIdSet (g # gs)) = breadcrumb (map ownFragment ns1)" by blast
  from 3(2)[of p] obtain ns2 where ns2: "subseq ns2 (rev (g # gs))"
    "\<forall>m\<in>set ns2. \<not> rootWrapper m"
    "ParentPath (buildClassesIdSet (p # g # gs)) = breadcrumb (map ownFragment ns2)" by blast
  have g: "ToPath (buildClassesIdSet (g # gs)) = breadcrumb (map ownFragment (ns1 @ [g]))"
    by (simp add: ToPath_build ns1(3) breadcrumb_snoc)
  have p: "ToPath (buildClassesIdSet (p # g # gs)) = breadcrumb (map ownFragment (ns2 @ [p]))"
    by (simp add: ToPath_build ns2(3) breadcrumb_snoc)
  have sg: "subseq (ns1 @ [g]) (rev (p # g # gs))"
  proof -
    have "subseq (ns1 @ [g]) (rev gs @ [g])"
      using ns1(1) by (intro list_emb_append_mono) simp_all
    then have "subseq (ns1 @ [g]) ((rev gs @ [g]) @ [p])"
      by (rule list_emb_prefix)
    then show ?thesis by simp
  qed
  have sp: "subseq (ns2 @ [p]) (rev (p # g # gs))"
  proof -
    have "subseq (ns2 @ [p]) (rev (g # gs) @ [p])"
      using ns2(1) by (intro list_emb_append_mono) simp_all
    then show ?thesis by simp
  qed
  from parentPath_choice[of n p g gs]
  consider (none) "ParentPath (buildClassesIdSet (n # p # g # gs)) = []"
    | (parent) "\<not> rootWrapper p"
        "ParentPath (buildClassesIdSet (n # p # g # gs)) = ToPath (buildClassesIdSet (p # g # gs))"
    | (grandparent) "\<not> rootWrapper g"
        "ParentPath (buildClassesIdSet (n # p # g # gs)) = ToPath (buildClassesIdSet (g # gs))"
    by blast
  then show ?case
  proof cases
    case none
    then show ?thesis by (intro exI[of _ "[]"]) (simp add: breadcrumb_def)
  next
    case parent
    then show ?thesis using p sp ns2(2) by (intro exI[of _ "ns2 @ [p]"]) auto
  next
    case grandparent
    then show ?thesis using g sg ns1(2) by (intro exI[of _ "ns1 @ [g]"]) auto
  qed
qed

text \<open>
  Claim C6. For every node and every chain of ancestors, the path of the node is made
  of the own fragments of some of its ancestors, outermost first, followed by the node's
  own fragment, and none of those ancestors is named html or body, however deep the
  chain is and whether or not the skip rule climbed. (The last fragment is the input
  node's own; the analyzer passes div, article, section and aside elements.)
\<close>

theorem path_has_no_root_wrapper_fragment:
  "\<exists>ns. subseq ns (rev ancestors) \<and>
        (\<forall>m\<in>set ns. nodeName m \<noteq> ''html'' \<and> nodeName m \<noteq> ''body'') \<and>
        ToPath (buildClassesIdSet (n # ancestors)) = breadcrumb (map ownFragment (ns @ [n]))"
proof -
  obtain ns where ns: "subseq ns (rev ancestors)" "\<forall>m\<in>set ns. \<not> rootWrapper m"
    "ParentPath (buildClassesIdSet (n # ancestors)) = breadcrumb (map ownFragment ns)"
    using parentPath_crumbs by blast
  have "ToPath (buildClassesIdSet (n # ancestors)) = breadcrumb (map ownFragment (ns @ [n]))"
    by (simp add: ToPath_build ns(3) breadcrumb_snoc)
  moreover from ns(2) have "\<forall>m\<in>set ns. nodeName m \<noteq> ''html'' \<and> nodeName m \<noteq> ''body''"
    by (simp add: rootWrapper_def)
  ultimately show ?thesis using ns(1) by blast
qed

theorem path_has_no_root_wrapper_fragment_witness:
  "ToPath (buildClassesIdSet exampleLineage) = ''section#main div span'' \<and>
   (\<exists>ns. subseq ns (rev (tl exampleLineage)) \<and>
         (\<forall>m\<in>set ns. nodeName m \<noteq> ''html'' \<and> nodeName m \<noteq> ''body'') \<and>
         ''section#main div span'' = breadcrumb (map ownFragment (ns @ [hd exampleLineage])))"
proof -
  have e: "ToPath (buildClassesIdSet exampleLineage) = ''section#main div span''"
    by code_simp
  have l: "exampleLineage = hd exampleLineage # tl exampleLineage"
    by (simp add: exampleLineage_def)
  from path_has_no_root_wrapper_fragment [of "tl exampleLineage" "hd exampleLineage"]
  show ?thesis
    unfolding l [symmetric] e by (simp add: e)
qed


section \<open>Article extraction: the loop and its result\<close>

lemma articleLoopBody_eq:
  "articleLoopBody L articles out i =
     (if i < maxNum
      then (case candidateArticle L (articles ! i) of
              Some a \<Rightarrow> out[i := a] | None \<Rightarrow> out)
      else out)"
  by (auto simp: articleLoopBody_def candidateArticle_def Let_def
      split: option.splits list.splits)

lemma length_articleLoopBody:
  "length (articleLoopBody L articles out i) = length out"
  by (simp add: articleLoopBody_eq split: option.splits)

lemma nth_articleLoopBody:
  "length out = maxNum \<Longrightarrow>
   articleLoopBody L articles out i ! j =
     (if j = i \<and> i < maxNum
      then (case candidateArticle L (articles ! i) of Some a \<Rightarrow> a | None \<Rightarrow> out ! j)
      else out ! j)"
  by (simp add: articleLoopBody_eq split: option.splits)

lemma length_loop:
  "length (foldl (articleLoopBody L articles) out ixs) = length out"
  by (induction ixs arbitrary: out) (simp_all add: length_articleLoopBody)

lemma loop_untouched:
  "n \<le> j \<Longrightarrow> length out = maxNum \<Longrightarrow>
   foldl (articleLoopBody L articles) out [0..<n] ! j = out ! j"
  by (induction n) (simp_all add: nth_articleLoopBody length_loop)

lemma loop_nth:
  "i < n \<Longrightarrow> n \<le> maxNum \<Longrightarrow> length out = maxNum \<Longrightarrow>
   foldl (articleLoopBody L articles) out [0..<n] ! i =
     (case candidateArticle L (articles ! i) of Some a \<Rightarrow> a | None \<Rightarrow> out ! i)"
proof (induction n)
  case 0
  then show ?case by simp
next
  case (Suc n)
  show ?case
  proof (cases "i = n")
    case True
    with Suc.prems show ?thesis
      by (simp add: nth_articleLoopBody length_loop loop_untouched split: option.splits)
  next
    case False
    with Suc.prems have "i < n" by simp
    with Suc show ?thesis
      by (simp add: nth_articleLoopBody length_loop)
  qed
qed

lemma readBlogArticles_Inr:
  assumes "fst (readBlogArticles L bow) = Inr out"
  shows "length (bow_Find bow [''article'']) \<le> maxNum"
    and "out = Slice (map (\<lambda>c. case candidateArticle L c of Some a \<Rightarrow> a | None \<Rightarrow> zeroArticle)
                       (map (removeBelow noiseTags) (bow_Find bow [''article''])))"
proof -
  let ?as = "map (removeBelow noiseTags) (bow_Find bow [''article''])"
  let ?out = "foldl (articleLoopBody L ?as) (replicate maxNum zeroArticle) [0..<length ?as]"
  let ?f = "\<lambda>c. case candidateArticle L c of Some a \<Rightarrow> a | None \<Rightarrow> zeroArticle"
  from assms show le: "length (bow_Find bow [''article'']) \<le> maxNum"
    by (auto simp: readBlogArticles_def Let_def split: if_splits)
  from assms le have out: "out = Slice (take (length ?as) ?out)"
    by (auto simp: readBlogArticles_def Let_def split: if_splits)
  have "take (length ?as) ?out = map ?f ?as"
  proof (rule nth_equalityI)
    show "length (take (length ?as) ?out) = length (map ?f ?as)"
      using le by (simp add: length_loop)
  next
    fix i assume "i < length (take (length ?as) ?out)"
    then have i: "i < length ?as" by simp
    with le show "take (length ?as) ?out ! i = map ?f ?as ! i"
      by (simp add: loop_nth length_loop split: option.splits)
  qed
  with out show "out = Slice (map ?f ?as)"
    by simp
qed

lemma matchAlls_replicate_empty:
  "matchAlls [t] (replicate n (Element t [] [])) = replicate n (Element t [] [])"
  by (induction n) simp_all

text \<open>
  Claim C1, where the code departs from it. The loop guards its writes with the cap of
  100, but the last line slices the array of 100 up to the number of candidates. With
  more than 100 candidates that slice expression panics, so nothing is returned: the
  candidates beyond the cap are not dropped silently.
\<close>

theorem more_than_cap_candidates_panic:
  "maxNum < length (bow_Find bow [''article'']) \<Longrightarrow>
   fst (readBlogArticles L bow) =
     Inl (SliceBoundsOutOfRange (length (bow_Find bow [''article''])) maxNum)"
  by (simp add: readBlogArticles_def Let_def)

theorem more_than_cap_candidates_panic_witness:
  "maxNum < length (bow_Find crowdedBrowser [''article'']) \<and>
   fst (readBlogArticles exampleLib crowdedBrowser) = Inl (SliceBoundsOutOfRange 101 100)"
proof -
  have n: "length (bow_Find crowdedBrowser [''article'']) = 101"
    by (simp add: bow_Find_def crowdedBrowser_def matchAlls_replicate_empty)
  then have h: "maxNum < length (bow_Find crowdedBrowser [''article''])"
    by (simp add: maxNum_def)
  from more_than_cap_candidates_panic [OF h, of exampleLib] h show ?thesis
    by (simp add: n maxNum_def)
qed

text \<open>
  Claim C2, as the code has it. When extraction returns, the sequence has one entry for
  each candidate, in document order. The entry of a candidate whose markup serialises
  and whose first h1, h2 or h3 heading contains an anchor has the text of that heading
  as its title and the href of the first anchor in it as its uri, which is empty when
  that anchor has no href. The entry of every other candidate is the zero Article, with
  every field empty: such a candidate is not left out of the sequence.
\<close>

theorem one_entry_per_candidate:
  assumes "fst (readBlogArticles L bow) = Inr out"
  shows "length (elems out) = length (bow_Find bow [''article'']) \<and>
    (\<forall>i < length (bow_Find bow [''article'']).
       (let c = removeBelow noiseTags (bow_Find bow [''article''] ! i);
            titleEls = node_Find c [''h1'', ''h2'', ''h3'']
        in if sel_Html L c \<noteq> None \<and> titleEls \<noteq> [] \<and> node_Find (hd titleEls) [''a''] \<noteq> []
           then article_Title (elems out ! i) = getNodeText (hd titleEls) \<and>
                article_Uri (elems out ! i) =
                  (case nodeAttr (hd (node_Find (hd titleEls) [''a''])) ''href'' of
                     Some val \<Rightarrow> val | None \<Rightarrow> [])
           else elems out ! i = zeroArticle))"
proof -
  let ?f = "\<lambda>c. case candidateArticle L c of Some a \<Rightarrow> a | None \<Rightarrow> zeroArticle"
  have out: "elems out = map ?f (map (removeBelow noiseTags) (bow_Find bow [''article'']))"
    using readBlogArticles_Inr(2) [OF assms] by simp
  have each: "\<And>c. let titleEls = node_Find c [''h1'', ''h2'', ''h3'']
        in if sel_Html L c \<noteq> None \<and> titleEls \<noteq> [] \<and> node_Find (hd titleEls) [''a''] \<noteq> []
           then article_Title (?f c) = getNodeText (hd titleEls) \<and>
                article_Uri (?f c) =
                  (case nodeAttr (hd (node_Find (hd titleEls) [''a''])) ''href'' of
                     Some val \<Rightarrow> val | None \<Rightarrow> [])
           else ?f c = zeroArticle"
    by (auto simp: candidateArticle_def makeArticle_def Let_def split: option.splits list.splits)
  show ?thesis
    using each by (simp add: out Let_def)
qed

theorem one_entry_per_candidate_witness:
  "fst (readBlogArticles exampleLib exampleBrowser) =
     Inr (Slice [makeArticle ''T'' ''/p1'' ''Thello world''
                   (Slice [\<lparr>link_Title = ''T'', link_Uri = ''/p1''\<rparr>]),
                 zeroArticle,
                 makeArticle ''X'' [] ''X'' NilSlice]) \<and>
   length (bow_Find exampleBrowser [''article'']) = 3 \<and>
   node_Find (removeBelow noiseTags (bow_Find exampleBrowser [''article''] ! 1))
     [''h1'', ''h2'', ''h3''] = []"
proof -
  have r: "fst (readBlogArticles exampleLib exampleBrowser) =
     Inr (Slice [makeArticle ''T'' ''/p1'' ''Thello world''
                   (Slice [\<lparr>link_Title = ''T'', link_Uri = ''/p1''\<rparr>]),
                 zeroArticle,
                 makeArticle ''X'' [] ''X'' NilSlice])"
    by code_simp
  have n: "length (bow_Find exampleBrowser [''article'']) = 3"
    by code_simp
  have h: "node_Find (removeBelow noiseTags (bow_Find exampleBrowser [''article''] ! 1))
     [''h1'', ''h2'', ''h3''] = []"
    by code_simp
  from one_entry_per_candidate [OF r] r n h show ?thesis
    by simp
qed

theorem candidate_without_heading_counterexample:
  "node_Find plainArticle [''h1'', ''h2'', ''h3''] = [] \<and>
   fst (readBlogArticles exampleLib plainBrowser) =
     Inr (Slice [\<lparr>article_Title = [], article_Uri = [], article_Content = [],
                   article_Links = NilSlice\<rparr>])"
  by code_simp


section \<open>The cache-aside read path\<close>

lemma readLive_world:
  "fst (readLiveBlogPage L w uri) = w\<lparr>trace := trace w @ [BrowserOpen uri]\<rparr>"
  by (simp add: readLiveBlogPage_def Let_def split: option.splits prod.splits sum.splits)

lemma readLive_result_indep:
  "web w' = web w \<Longrightarrow> snd (readLiveBlogPage L w' uri) = snd (readLiveBlogPage L w uri)"
  by (simp add: readLiveBlogPage_def Let_def split: option.splits prod.splits sum.splits)

lemma readLive_Cached:
  "snd (readLiveBlogPage L w uri) = Inr data \<Longrightarrow> \<not> Cached data"
  by (auto simp: readLiveBlogPage_def Let_def makePage_def
      split: option.splits prod.splits sum.splits)

lemma getCache_eq:
  "getCache L w key =
     (w\<lparr>trace := trace w @ [StoreGet key]\<rparr>,
      (case store w key of
         Some entry \<Rightarrow> fst (json_Unmarshal L (fst entry) emptyPage)
       | None \<Rightarrow> emptyPage),
      (case store w key of Some entry \<Rightarrow> None | None \<Rightarrow> Some RedisNil))"
  by (simp add: getCache_def Let_def split: option.splits prod.splits)

lemma readBlogPage_hit:
  "store w (''page:'' @ path) = Some (bytes, expiration) \<Longrightarrow>
   readBlogPage L w path scheme True =
     (w\<lparr>trace := trace w @ [StoreGet (''page:'' @ path)]\<rparr>,
      Inr (setCached (fst (json_Unmarshal L bytes emptyPage)), True))"
  by (simp add: readBlogPage_def getCache_eq Let_def)

lemma readBlogPage_compute:
  assumes "\<not> cached \<or> store w (''page:'' @ path) = None"
  shows "readBlogPage L w path scheme cached =
     (case snd (readLiveBlogPage L w (scheme @ ''://'' @ path)) of
        Inl p \<Rightarrow>
          (w\<lparr>trace := trace w @ [StoreGet (''page:'' @ path),
                                  BrowserOpen (scheme @ ''://'' @ path)]\<rparr>,
           Inl p)
      | Inr data \<Rightarrow>
          (w\<lparr>store := (store w)(''page:'' @ path \<mapsto>
                         (json_Page [] '' '' 0 data, 86400000000000)),
             trace := trace w @ [StoreGet (''page:'' @ path),
                                 BrowserOpen (scheme @ ''://'' @ path),
                                 StoreSet (''page:'' @ path) (json_Page [] '' '' 0 data)
                                   86400000000000]\<rparr>,
           Inr (data, False)))"
proof -
  let ?key = "''page:'' @ path" and ?uri = "scheme @ ''://'' @ path"
  let ?w1 = "w\<lparr>trace := trace w @ [StoreGet ?key]\<rparr>"
  have live: "readLiveBlogPage L ?w1 ?uri =
      (w\<lparr>trace := trace w @ [StoreGet ?key, BrowserOpen ?uri]\<rparr>,
       snd (readLiveBlogPage L w ?uri))"
    using readLive_world[of L ?w1 ?uri] readLive_result_indep[of ?w1 w L ?uri]
    by (simp add: prod_eq_iff)
  from assms have
    "readBlogPage L w path scheme cached =
       (case readLiveBlogPage L ?w1 ?uri of
          (w2, live) \<Rightarrow>
            (case live of
               Inl p \<Rightarrow> (w2, Inl p)
             | Inr data \<Rightarrow> (fst (setCache w2 ?key data 1440), Inr (data, False))))"
    by (auto simp: readBlogPage_def getCache_eq Let_def
        split: option.splits prod.splits sum.splits)
  then show ?thesis
    unfolding live
    by (simp add: setCache_def json_MarshalIndent_def Let_def split: sum.splits)
qed

lemma readLive_missing:
  "readLiveBlogPage exampleLib emptyWorld ''https://example.com'' =
     (emptyWorld\<lparr>trace := [BrowserOpen ''https://example.com'']\<rparr>, Inr missingPage)"
  by (simp add: readLiveBlogPage_def emptyWorld_def missingPage_def)

lemma readLive_example:
  "snd (readLiveBlogPage exampleLib liveWorld ''https://example.com'') = Inr examplePage"
  by code_simp

text \<open>
  Claim C3, where the code departs from it. \<^verbatim>\<open>getCache\<close> drops the error of the
  decoder and reports only the error of the read. So when the key is present and its
  bytes do not decode, a read with the cache in use is a hit: the page the decoder left
  behind is returned with the cached flag set and served-from-cache true, the network
  is not asked and nothing is written.
\<close>

theorem undecodable_entry_is_served_as_hit:
  assumes "store w (''page:'' @ path) = Some (bytes, expiration)"
    and "snd (json_Unmarshal L bytes emptyPage)"
  shows "readBlogPage L w path scheme True =
     (w\<lparr>trace := trace w @ [StoreGet (''page:'' @ path)]\<rparr>,
      Inr (setCached (fst (json_Unmarshal L bytes emptyPage)), True))"
  using assms(1) by (rule readBlogPage_hit)

theorem undecodable_entry_is_served_as_hit_witness:
  "store staleWorld ''page:example.com'' = Some (''not json'', 86400000000000) \<and>
   snd (json_Unmarshal exampleLib ''not json'' emptyPage) \<and>
   readBlogPage exampleLib staleWorld ''example.com'' ''https'' True =
     (staleWorld\<lparr>trace := [StoreGet ''page:example.com'']\<rparr>,
      Inr (emptyPage\<lparr>Cached := True\<rparr>, True))"
proof -
  have s: "store staleWorld (''page:'' @ ''example.com'') = Some (''not json'', 86400000000000)"
    by (simp add: staleWorld_def)
  have d: "snd (json_Unmarshal exampleLib ''not json'' emptyPage)"
    by (simp add: exampleLib_def)
  from undecodable_entry_is_served_as_hit [OF s d, of "''https''"] s d show ?thesis
    by (simp add: exampleLib_def setCached_def staleWorld_def)
qed

text \<open>
  Claim C4, as the code has it. With the cache not in use the store is still read
  first, and what it answers is ignored. Then the page is computed; when the
  computation returns a page, the page is written under the key with the expiration of
  1440 minutes and returned with served-from-cache false, whatever the store held
  before.
\<close>

theorem refresh_reads_store_then_recomputes:
  assumes "snd (readLiveBlogPage L w (scheme @ ''://'' @ path)) = Inr data"
  shows "readBlogPage L w path scheme False =
     (w\<lparr>store := (store w)(''page:'' @ path \<mapsto>
                    (fst (json_MarshalIndent data [] '' ''), 1440 * 60000000000)),
        trace := trace w @ [StoreGet (''page:'' @ path),
                            BrowserOpen (scheme @ ''://'' @ path),
                            StoreSet (''page:'' @ path) (fst (json_MarshalIndent data [] '' ''))
                              (1440 * 60000000000)]\<rparr>,
      Inr (data, False))"
  using readBlogPage_compute [of False w path L scheme] assms
  by (simp add: json_MarshalIndent_def)

theorem refresh_reads_store_then_recomputes_witness:
  "snd (readLiveBlogPage exampleLib liveWorld ''https://example.com'') = Inr examplePage \<and>
   snd (readBlogPage exampleLib liveWorld ''example.com'' ''https'' False) =
     Inr (examplePage, False) \<and>
   trace (fst (readBlogPage exampleLib liveWorld ''example.com'' ''https'' False)) =
     [StoreGet ''page:example.com'', BrowserOpen ''https://example.com'',
      StoreSet ''page:example.com'' (fst (json_MarshalIndent examplePage [] '' ''))
        86400000000000]"
proof -
  have l: "snd (readLiveBlogPage exampleLib liveWorld (''https'' @ ''://'' @ ''example.com''))
      = Inr examplePage"
    using readLive_example by simp
  from refresh_reads_store_then_recomputes [OF l] readLive_example show ?thesis
    by (simp add: liveWorld_def)
qed

theorem refresh_skips_store_read_counterexample:
  "StoreGet ''page:example.com'' \<in>
     set (trace (fst (readBlogPage exampleLib emptyWorld ''example.com'' ''https'' False)))"
  using readBlogPage_compute [of False emptyWorld "''example.com''" exampleLib "''https''"]
    readLive_missing
  by (simp add: emptyWorld_def)


lemma concat_replicate_space: "concat (replicate depth '' '') = replicate depth (CHR '' '')"
  by (induction depth) simp_all

text \<open>
  Claim C8, as the code has it. On a read that is no hit, a page that the computation
  returns is stored under the key made of \<^verbatim>\<open>page:\<close> and the path, without the scheme,
  as JSON with no prefix and an indent of one space for each level of nesting, with an
  expiration of 1440 minutes (86400000000000 nanoseconds).
\<close>

theorem fresh_page_is_stored_with_one_space_indent:
  assumes "\<not> cached \<or> store w (''page:'' @ path) = None"
    and "snd (readLiveBlogPage L w (scheme @ ''://'' @ path)) = Inr data"
  shows "store (fst (readBlogPage L w path scheme cached)) (''page:'' @ path) =
           Some (json_Page [] '' '' 0 data, 1440 * 60000000000) \<and>
         json_newline [] '' '' depth = CHR 0x0A # replicate depth (CHR '' '') \<and>
         sint (1440 * 60000000000 :: 64 word) = 1440 * (60 * 1000000000)"
  using readBlogPage_compute [OF assms(1), of L scheme] assms(2)
  by (simp add: json_newline_def concat_replicate_space)

theorem fresh_page_is_stored_with_one_space_indent_witness:
  "store emptyWorld ''page:example.com'' = None \<and>
   snd (readLiveBlogPage exampleLib emptyWorld ''https://example.com'') = Inr missingPage \<and>
   store (fst (readBlogPage exampleLib emptyWorld ''example.com'' ''https'' True))
     ''page:example.com'' = Some (json_Page [] '' '' 0 missingPage, 86400000000000)"
proof -
  have s: "\<not> True \<or> store emptyWorld (''page:'' @ ''example.com'') = None"
    by (simp add: emptyWorld_def)
  have l: "snd (readLiveBlogPage exampleLib emptyWorld (''https'' @ ''://'' @ ''example.com''))
      = Inr missingPage"
    by (simp add: readLive_missing)
  from fresh_page_is_stored_with_one_space_indent [OF s l, of 0] s l show ?thesis
    by simp
qed

theorem two_space_indent_counterexample:
  "store (fst (readBlogPage exampleLib emptyWorld ''example.com'' ''https'' True))
     ''page:example.com'' =
     Some (''{\<newline> \"uri\": \"https://example.com\",\<newline> \"exists\": false,\<newline> \"cached\": false,\<newline> \"title\": \"\",\<newline> \"articles\": null,\<newline> \"links\": null\<newline>}'',
           86400000000000) \<and>
   fst (json_MarshalIndent missingPage [] ''  '') =
     ''{\<newline>  \"uri\": \"https://example.com\",\<newline>  \"exists\": false,\<newline>  \"cached\": false,\<newline>  \"title\": \"\",\<newline>  \"articles\": null,\<newline>  \"links\": null\<newline>}'' \<and>
   fst (json_MarshalIndent missingPage [] ''  '') \<noteq>
     fst (the (store (fst (readBlogPage exampleLib emptyWorld ''example.com'' ''https'' True))
       ''page:example.com''))"
proof -
  have s: "\<not> True \<or> store emptyWorld (''page:'' @ ''example.com'') = None"
    by (simp add: emptyWorld_def)
  have one: "json_Page [] '' '' 0 missingPage =
     ''{\<newline> \"uri\": \"https://example.com\",\<newline> \"exists\": false,\<newline> \"cached\": false,\<newline> \"title\": \"\",\<newline> \"articles\": null,\<newline> \"links\": null\<newline>}''"
    by code_simp
  have two: "fst (json_MarshalIndent missingPage [] ''  '') =
     ''{\<newline>  \"uri\": \"https://example.com\",\<newline>  \"exists\": false,\<newline>  \"cached\": false,\<newline>  \"title\": \"\",\<newline>  \"articles\": null,\<newline>  \"links\": null\<newline>}''"
    by code_simp
  have st: "store (fst (readBlogPage exampleLib emptyWorld ''example.com'' ''https'' True))
     ''page:example.com'' = Some (json_Page [] '' '' 0 missingPage, 86400000000000)"
    using readBlogPage_compute [OF s, of exampleLib "''https''"] readLive_missing
    by simp
  show ?thesis
    unfolding st two one by simp
qed

text \<open>
  Claim C10. A call of \<^verbatim>\<open>readBlogPage\<close> ends in one of three ways. On a hit the page
  handed back has the cached flag set, and the store is left as it was: nothing is
  written. On a fresh computation the page has the cached flag clear, it is this page
  whose encoding is written, and it is handed back with the flag still clear. When the
  computation panics nothing is written. So every page written to the store has the
  cached flag clear.
\<close>

theorem cached_flag_is_never_stored:
  assumes "readBlogPage L w path scheme cached = (w', r)"
  shows "(\<exists>page. r = Inr (page, True) \<and> Cached page \<and> store w' = store w \<and>
            trace w' = trace w @ [StoreGet (''page:'' @ path)]) \<or>
         (\<exists>data. r = Inr (data, False) \<and> \<not> Cached data \<and>
            store w' = (store w)(''page:'' @ path \<mapsto>
                          (fst (json_MarshalIndent data [] '' ''), 1440 * 60000000000)) \<and>
            trace w' = trace w @ [StoreGet (''page:'' @ path),
                                  BrowserOpen (scheme @ ''://'' @ path),
                                  StoreSet (''page:'' @ path)
                                    (fst (json_MarshalIndent data [] '' ''))
                                    (1440 * 60000000000)]) \<or>
         (\<exists>p. r = Inl p \<and> store w' = store w \<and>
            trace w' = trace w @ [StoreGet (''page:'' @ path),
                                  BrowserOpen (scheme @ ''://'' @ path)])"
proof (cases "\<not> cached \<or> store w (''page:'' @ path) = None")
  case True
  note compute = readBlogPage_compute [OF True, of L scheme]
  show ?thesis
  proof (cases "snd (readLiveBlogPage L w (scheme @ ''://'' @ path))")
    case (Inl p)
    with compute assms have "r = Inl p \<and> store w' = store w \<and>
        trace w' = trace w @ [StoreGet (''page:'' @ path), BrowserOpen (scheme @ ''://'' @ path)]"
      by auto
    then show ?thesis by blast
  next
    case (Inr data)
    then have "\<not> Cached data" by (rule readLive_Cached)
    moreover from compute assms Inr have "r = Inr (data, False) \<and>
        store w' = (store w)(''page:'' @ path \<mapsto>
                      (fst (json_MarshalIndent data [] '' ''), 1440 * 60000000000)) \<and>
        trace w' = trace w @ [StoreGet (''page:'' @ path),
                              BrowserOpen (scheme @ ''://'' @ path),
                              StoreSet (''page:'' @ path)
                                (fst (json_MarshalIndent data [] '' ''))
                                (1440 * 60000000000)]"
      by (auto simp: json_MarshalIndent_def)
    ultimately show ?thesis by blast
  qed
next
  case False
  then obtain bytes expiration where
    hit: "cached" "store w (''page:'' @ path) = Some (bytes, expiration)"
    by auto
  from readBlogPage_hit [OF hit(2), of L scheme] hit(1) assms
  have "r = Inr (setCached (fst (json_Unmarshal L bytes emptyPage)), True) \<and>
        store w' = store w \<and> trace w' = trace w @ [StoreGet (''page:'' @ path)]"
    by auto
  moreover have "Cached (setCached (fst (json_Unmarshal L bytes emptyPage)))"
    by (simp add: setCached_def)
  ultimately show ?thesis by blast
qed

theorem cached_flag_is_never_stored_witness:
  "(\<exists>data. snd (readBlogPage exampleLib liveWorld ''example.com'' ''https'' True) =
             Inr (data, False) \<and> \<not> Cached data \<and>
           store (fst (readBlogPage exampleLib liveWorld ''example.com'' ''https'' True)) =
             (store liveWorld)(''page:example.com'' \<mapsto>
                (fst (json_MarshalIndent data [] '' ''), 86400000000000))) \<and>
   (\<exists>page. snd (readBlogPage exampleLib staleWorld ''example.com'' ''https'' True) =
             Inr (page, True) \<and> Cached page \<and>
           store (fst (readBlogPage exampleLib staleWorld ''example.com'' ''https'' True)) =
             store staleWorld)"
proof -
  have live: "snd (readBlogPage exampleLib liveWorld ''example.com'' ''https'' True) =
      Inr (examplePage, False)"
    using readBlogPage_compute [of True liveWorld "''example.com''" exampleLib "''https''"]
      readLive_example
    by (simp add: liveWorld_def)
  have stale: "snd (readBlogPage exampleLib staleWorld ''example.com'' ''https'' True) =
      Inr (setCached emptyPage, True)"
    using readBlogPage_hit [of staleWorld "''example.com''" "''not json''" 86400000000000
        exampleLib "''https''"]
    by (simp add: staleWorld_def exampleLib_def)
  from cached_flag_is_never_stored
    [OF prod.collapse [symmetric], of exampleLib liveWorld "''example.com''" "''https''" True]
    cached_flag_is_never_stored
    [OF prod.collapse [symmetric], of exampleLib staleWorld "''example.com''" "''https''" True]
  show ?thesis
    unfolding live stale by simp
qed


section \<open>The links of a page\<close>

lemma uriIsIn_iff: "uriIsIn ls str \<longleftrightarrow> str \<in> set (map link_Uri ls)"
  by (induction ls) auto

lemma pageLinks_Nil: "pageLinks [] = NilSlice"
  by (simp add: pageLinks_def)

lemma pageLinks_snoc:
  "pageLinks (ls @ [l]) =
     (if linkPath l \<noteq> [] \<and> linkPath l \<notin> set (map link_Uri (elems (pageLinks ls)))
      then Slice (elems (pageLinks ls) @ [\<lparr>link_Title = link_Text l, link_Uri = linkPath l\<rparr>])
      else pageLinks ls)"
  by (simp add: pageLinks_def Let_def uriIsInLinkItems_def uriIsIn_iff append_slice_def
      linkPath_def)

lemma pageLinks_uris:
  "map link_Uri (elems (pageLinks ls)) =
     rev (remdups (rev (filter (\<lambda>p. p \<noteq> []) (map linkPath ls))))"
proof (induction ls rule: rev_induct)
  case Nil
  show ?case by (simp add: pageLinks_Nil)
next
  case (snoc l ls)
  have "set (map link_Uri (elems (pageLinks ls))) =
        set (filter (\<lambda>p. p \<noteq> []) (map linkPath ls))"
    by (simp only: snoc.IH set_rev set_remdups)
  with snoc.IH show ?case
    by (simp add: pageLinks_snoc)
qed

lemma find_snoc:
  "find P (xs @ [x]) =
     (case find P xs of Some y \<Rightarrow> Some y | None \<Rightarrow> if P x then Some x else None)"
  by (induction xs) auto

lemma find_absent: "y \<notin> set (map f xs) \<Longrightarrow> find (\<lambda>x. f x = y) xs = None"
  by (induction xs) auto

lemma pageLinks_first:
  "e \<in> set (elems (pageLinks ls)) \<Longrightarrow>
   \<exists>l. find (\<lambda>l. linkPath l = link_Uri e) ls = Some l \<and> link_Title e = link_Text l"
proof (induction ls rule: rev_induct)
  case Nil
  then show ?case by (simp add: pageLinks_Nil)
next
  case (snoc l ls)
  show ?case
  proof (cases "e \<in> set (elems (pageLinks ls))")
    case True
    with snoc.IH show ?thesis by (auto simp: find_snoc)
  next
    case False
    with snoc.prems have new: "linkPath l \<noteq> []"
      "linkPath l \<notin> set (map link_Uri (elems (pageLinks ls)))"
      "e = \<lparr>link_Title = link_Text l, link_Uri = linkPath l\<rparr>"
      by (auto simp: pageLinks_snoc split: if_splits)
    from new(1,2) have "linkPath l \<notin> set (map linkPath ls)"
      by (simp add: pageLinks_uris)
    then have "find (\<lambda>x. linkPath x = linkPath l) ls = None"
      by (rule find_absent)
    with new(3) show ?thesis by (simp add: find_snoc)
  qed
qed

lemma readLive_Links:
  "snd (readLiveBlogPage L w uri) = Inr page \<Longrightarrow>
   Links page = pageLinks (reportedLinks L w uri)"
  by (auto simp: readLiveBlogPage_def reportedLinks_def Let_def makePage_def pageLinks_Nil
      split: option.splits prod.splits sum.splits)

text \<open>
  Claim C9. For every page that \<^verbatim>\<open>readLiveBlogPage\<close> returns, the uris of its links
  are the path components of the addresses of the links the browser reports, without
  the empty paths, each path once and in the order of its first occurrence; nothing of
  an address but its path is kept. The title of an entry is the text of the first
  reported link with that path.
\<close>

theorem page_links_are_first_nonempty_paths:
  assumes "snd (readLiveBlogPage L w uri) = Inr page"
  shows "map link_Uri (elems (Links page)) =
           rev (remdups (rev (filter (\<lambda>p. p \<noteq> [])
             (map (\<lambda>l. url_Path (link_Url l)) (reportedLinks L w uri))))) \<and>
         distinct (map link_Uri (elems (Links page))) \<and>
         [] \<notin> set (map link_Uri (elems (Links page))) \<and>
         (\<forall>e\<in>set (elems (Links page)).
            \<exists>l. find (\<lambda>l. url_Path (link_Url l) = link_Uri e) (reportedLinks L w uri) = Some l \<and>
                link_Title e = link_Text l)"
proof -
  have links: "Links page = pageLinks (reportedLinks L w uri)"
    using assms by (rule readLive_Links)
  have uris: "map link_Uri (elems (Links page)) =
           rev (remdups (rev (filter (\<lambda>p. p \<noteq> [])
             (map (\<lambda>l. url_Path (link_Url l)) (reportedLinks L w uri)))))"
    using pageLinks_uris [of "reportedLinks L w uri"]
    by (simp add: links linkPath_def [abs_def])
  have firsts: "\<forall>e\<in>set (elems (Links page)).
            \<exists>l. find (\<lambda>l. url_Path (link_Url l) = link_Uri e) (reportedLinks L w uri) = Some l \<and>
                link_Title e = link_Text l"
    using pageLinks_first [of _ "reportedLinks L w uri"]
    by (simp add: links linkPath_def [abs_def])
  have "distinct (map link_Uri (elems (Links page)))"
    unfolding uris by simp
  moreover have "[] \<notin> set (map link_Uri (elems (Links page)))"
    unfolding uris by simp
  ultimately show ?thesis using uris firsts by blast
qed

theorem page_links_are_first_nonempty_paths_witness:
  "snd (readLiveBlogPage exampleLib liveWorld ''https://example.com'') = Inr examplePage \<and>
   map (\<lambda>l. url_Path (link_Url l)) (reportedLinks exampleLib liveWorld ''https://example.com'') =
     [''/a'', ''/a'', [], ''/b''] \<and>
   map link_Uri (elems (Links examplePage)) = [''/a'', ''/b''] \<and>
   map link_Title (elems (Links examplePage)) = [''first'', ''third'']"
proof -
  have r: "map (\<lambda>l. url_Path (link_Url l))
      (reportedLinks exampleLib liveWorld ''https://example.com'') = [''/a'', ''/a'', [], ''/b'']"
    by code_simp
  have t: "map link_Title (elems (Links examplePage)) = [''first'', ''third'']"
    by code_simp
  from page_links_are_first_nonempty_paths [OF readLive_example] r t readLive_example
  show ?thesis
    by simp
qed

end
